theory Spec2Isabelle
  imports Complex_Main
begin

section \<open>Errors\<close>

text \<open>
  Every exception the modelled code can raise is a value. \<open>ValidationError\<close> carries the
  message of Django's \<^verbatim>\<open>forms.ValidationError\<close>; \<open>TypeError\<close>, \<open>KeyError\<close>,
  \<open>IndexError\<close> and \<open>ZeroDivisionError\<close> are the uncaught Python exceptions of the same
  names. The last two constructors are the failures named by the specification of the
  counting engine.
\<close>

datatype error =
    ValidationError string
  | TypeError
  | KeyError
  | IndexError
  | ZeroDivisionError
  | EmptyElectorateError
  | InsufficientCandidatesError

section \<open>Quota Calculator\<close>

text \<open>
  Modelled from the spec: the Quota Calculator. The module \<^verbatim>\<open>zeus.stv_count_reports\<close>
  that \<^verbatim>\<open>stv_count\<close> imports (and the counting engine behind it) is not among the
  source files, so \<open>compute\<close> follows section 4.3 of the specification word for word:
  it fails with \<open>EmptyElectorateError\<close> when \<open>valid_ballot_count = 0\<close>, with
  \<open>InsufficientCandidatesError\<close> when the registry holds fewer candidates than \<open>seats\<close>,
  and otherwise returns \<open>floor (valid_ballot_count / (seats + 1)) + 1\<close> under the Droop
  policy and \<open>ceil (valid_ballot_count / seats)\<close> under the simple policy. The division
  is the exact one, on rationals; the registry is the list of registered candidate
  identifiers; \<open>policy = True\<close> is the Droop policy.
\<close>

definition compute :: "nat list \<Rightarrow> nat \<Rightarrow> nat \<Rightarrow> bool \<Rightarrow> error + int" where
  "compute registry valid_ballot_count seats policy =
     (if valid_ballot_count = 0 then Inl EmptyElectorateError
      else if length registry < seats then Inl InsufficientCandidatesError
      else if policy
        then Inr (\<lfloor>rat_of_nat valid_ballot_count / rat_of_nat (seats + 1)\<rfloor> + 1)
        else Inr \<lceil>rat_of_nat valid_ballot_count / rat_of_nat seats\<rceil>)"

section \<open>Python built-ins used by the forms\<close>

text \<open>
  \<open>str\<close> is Python's \<^verbatim>\<open>str(i)\<close> on a non-negative integer: its decimal digits, most
  significant first, with no sign and no leading zero.
\<close>

definition digit_char :: "nat \<Rightarrow> char" where
  "digit_char d = ''0123456789'' ! (d mod 10)"

fun str :: "nat \<Rightarrow> string" where
  "str n = (if n < 10 then [digit_char n] else str (n div 10) @ [digit_char (n mod 10)])"

declare str.simps [simp del]

section \<open>STVBallotForm\<close>

text \<open>
  A vote as \<^verbatim>\<open>get_choices\<close> builds it: the dictionary
  \<^verbatim>\<open>{"votes": [...], "ballotSerialNumber": serial}\<close> whose entries are
  \<^verbatim>\<open>{"rank": i + 1, "candidateTmpId": val}\<close>.
\<close>

record vote_entry =
  rank :: nat
  candidateTmpId :: string

record vote =
  votes :: "vote_entry list"
  ballotSerialNumber :: nat

text \<open>
  The form object. \<open>candidates\<close> is the class attribute set by the view; \<open>form_fields\<close> (\<^verbatim>\<open>self.fields\<close>) is the
  ordered dictionary of choice fields, the key \<^verbatim>\<open>"choice_%d" % k\<close> written as the number
  \<open>k\<close> and each field given by its list of (value, label) choices; \<open>data\<close> holds the
  submitted value of each field (absent when the key was not posted); \<open>cleaned_data\<close> and
  \<open>errors\<close> are what validation leaves behind.
\<close>

record STVBallotForm =
  candidates :: "string list"
  form_fields :: "(nat \<times> (string \<times> string) list) list"
  data :: "nat \<rightharpoonup> string"
  cleaned_data :: "nat \<rightharpoonup> string"
  errors :: "error list"

text \<open>\<^verbatim>\<open>STVBallotForm.__init__\<close>: one choice field per candidate, all over the same choices.\<close>

definition STVBallotForm_choices :: "string list \<Rightarrow> (string \<times> string) list" where
  "STVBallotForm_choices cands =
     ('''', '''') # map (\<lambda>(i, c). (str i, c)) (enumerate 0 cands)"

definition STVBallotForm_init :: "string list \<Rightarrow> (nat \<rightharpoonup> string) \<Rightarrow> STVBallotForm" where
  "STVBallotForm_init cands posted =
     \<lparr>candidates = cands,
      form_fields = map (\<lambda>(i, c). (i + 1, STVBallotForm_choices cands)) (enumerate 0 cands),
      data = posted,
      cleaned_data = Map.empty,
      errors = []\<rparr>"

text \<open>\<^verbatim>\<open>self.cleaned_data.get("choice_%d" % k, "")\<close>.\<close>

definition cleaned_data_get :: "STVBallotForm \<Rightarrow> nat \<Rightarrow> string" where
  "cleaned_data_get f k = (case cleaned_data f k of None \<Rightarrow> '''' | Some v \<Rightarrow> v)"

text \<open>
  The values \<^verbatim>\<open>val\<close> that the loops of \<^verbatim>\<open>get_choices\<close> and \<^verbatim>\<open>clean\<close> read, in the
  order of \<^verbatim>\<open>enumerate(self.candidates)\<close>: the cleaned values of \<^verbatim>\<open>choice_1\<close>, ...,
  \<^verbatim>\<open>choice_n\<close>. It only serves to state properties of the two loops.
\<close>

definition cleaned_choices :: "STVBallotForm \<Rightarrow> string list" where
  "cleaned_choices f = map (\<lambda>(i, c). cleaned_data_get f (i + 1)) (enumerate 0 (candidates f))"

text \<open>
  \<^verbatim>\<open>STVBallotForm.get_choices\<close>: the loop over \<^verbatim>\<open>enumerate(self.candidates)\<close> stops at the
  first empty value (\<^verbatim>\<open>break\<close>).
\<close>

fun get_choices_loop ::
  "STVBallotForm \<Rightarrow> (nat \<times> string) list \<Rightarrow> vote_entry list \<Rightarrow> vote_entry list" where
  "get_choices_loop f [] vs = vs"
| "get_choices_loop f ((i, c) # ics) vs =
     (let val = cleaned_data_get f (i + 1)
      in if val = '''' then vs
         else get_choices_loop f ics (vs @ [\<lparr>rank = i + 1, candidateTmpId = val\<rparr>]))"

definition get_choices :: "STVBallotForm \<Rightarrow> nat \<Rightarrow> vote" where
  "get_choices f serial =
     \<lparr>votes = get_choices_loop f (enumerate 0 (candidates f)) [],
      ballotSerialNumber = serial\<rparr>"

text \<open>
  \<^verbatim>\<open>STVBallotForm.clean\<close>: the loop carries the flag \<^verbatim>\<open>empty\<close> (here \<open>empty_seen\<close>) and the list \<open>choices\<close>; it
  raises as soon as a non-empty value comes after an empty one, and the check after the
  loop raises when \<open>choices\<close> holds a value twice.
\<close>

fun clean_loop ::
  "STVBallotForm \<Rightarrow> (nat \<times> string) list \<Rightarrow> bool \<Rightarrow> string list \<Rightarrow> error + string list" where
  "clean_loop f [] empty_seen choices = Inr choices"
| "clean_loop f ((i, c) # ics) empty_seen choices =
     (let val = cleaned_data_get f (i + 1);
          empty_seen = (if val = [] then True else empty_seen)
      in if val \<noteq> [] \<and> empty_seen then Inl (ValidationError ''Invalid ballot'')
         else clean_loop f ics empty_seen (if val \<noteq> [] then choices @ [val] else choices))"

definition STVBallotForm_clean :: "STVBallotForm \<Rightarrow> error + (nat \<rightharpoonup> string)" where
  "STVBallotForm_clean f =
     (case clean_loop f (enumerate 0 (candidates f)) False [] of
        Inl e \<Rightarrow> Inl e
      | Inr choices \<Rightarrow>
          if length choices \<noteq> card (set choices)
          then Inl (ValidationError ''Invalid ballot'')
          else Inr (cleaned_data f))"

subsection \<open>Django's validation of the form\<close>

text \<open>
  Django's \<^verbatim>\<open>ChoiceField\<close> (library code) with \<^verbatim>\<open>required=False\<close>: an absent or empty
  submission cleans to the empty string; any other value must be the value of one of the
  field's choices, or the field raises a validation error.
\<close>

definition ChoiceField_clean :: "(string \<times> string) list \<Rightarrow> string option \<Rightarrow> error + string" where
  "ChoiceField_clean choices raw =
     (let v = (case raw of None \<Rightarrow> '''' | Some s \<Rightarrow> s)
      in if v \<noteq> '''' \<and> v \<notin> set (map fst choices)
         then Inl (ValidationError ''Select a valid choice.'')
         else Inr v)"

text \<open>
  Django's \<^verbatim>\<open>Form.full_clean\<close>: every field is cleaned in order, a value that passes is
  stored in \<open>cleaned_data\<close> and a failure is recorded in \<open>errors\<close>; then the form's own
  \<^verbatim>\<open>clean\<close> runs and its error, if any, is recorded too. The form is valid when no
  error was recorded. (For a form of a formset whose fields were all left empty Django
  skips the cleaning and leaves \<open>cleaned_data\<close> empty; the lookups with the default
  \<^verbatim>\<open>""\<close> then read the same empty values as after the cleaning modelled here.)
\<close>

fun clean_fields ::
  "STVBallotForm \<Rightarrow> (nat \<times> (string \<times> string) list) list \<Rightarrow> STVBallotForm" where
  "clean_fields f [] = f"
| "clean_fields f ((k, choices) # rest) =
     clean_fields
       (case ChoiceField_clean choices (data f k) of
          Inl e \<Rightarrow> f\<lparr>errors := errors f @ [e]\<rparr>
        | Inr v \<Rightarrow> f\<lparr>cleaned_data := (cleaned_data f)(k \<mapsto> v)\<rparr>)
       rest"

definition full_clean :: "STVBallotForm \<Rightarrow> STVBallotForm" where
  "full_clean f =
     (let f1 = clean_fields (f\<lparr>cleaned_data := Map.empty, errors := []\<rparr>) (form_fields f)
      in case STVBallotForm_clean f1 of
           Inl e \<Rightarrow> f1\<lparr>errors := errors f1 @ [e]\<rparr>
         | Inr cd \<Rightarrow> f1\<lparr>cleaned_data := cd\<rparr>)"

definition is_valid :: "STVBallotForm \<Rightarrow> bool" where
  "is_valid f = (errors (full_clean f) = [])"

section \<open>The view \<^verbatim>\<open>stv_count\<close>: assembling the ballots\<close>

text \<open>
  The loop \<^verbatim>\<open>for i, b in enumerate(ballots_form)\<close> of \<^verbatim>\<open>stv_count\<close>: a ballot whose
  \<^verbatim>\<open>votes\<close> list is empty is skipped (\<^verbatim>\<open>continue\<close>), any other is appended to
  \<^verbatim>\<open>el['ballots']\<close> with the serial \<open>i + 1\<close>.
\<close>

fun ballots_loop :: "(nat \<times> STVBallotForm) list \<Rightarrow> vote list \<Rightarrow> vote list" where
  "ballots_loop [] ballots = ballots"
| "ballots_loop ((i, b) # rest) ballots =
     (let choices = get_choices b (i + 1)
      in if votes choices = [] then ballots_loop rest ballots
         else ballots_loop rest (ballots @ [get_choices b (i + 1)]))"

text \<open>
  The branch of \<^verbatim>\<open>stv_count\<close> that receives the posted ballot formset: one form per
  posted ballot, all validated; when the formset is valid the result is the list
  \<^verbatim>\<open>el['ballots']\<close> of the election data handed to the count (it starts empty, as
  \<^verbatim>\<open>get_data\<close> returns it), otherwise no election data is produced (\<open>None\<close>) and the
  view reports "Invalid ballot data".
\<close>

definition stv_count_ballots :: "string list \<Rightarrow> (nat \<rightharpoonup> string) list \<Rightarrow> vote list option" where
  "stv_count_ballots cands posted =
     (let ballots_form = map (\<lambda>d. full_clean (STVBallotForm_init cands d)) posted
      in if list_all (\<lambda>b. errors b = []) ballots_form
         then Some (ballots_loop (enumerate 0 ballots_form) [])
         else None)"

section \<open>More Python built-ins\<close>

text \<open>
  Strings are lists of 8-bit characters, so a string here is a Python \<^verbatim>\<open>str\<close> whose
  code points lie below 256. \<open>is_space\<close> is the whitespace that \<^verbatim>\<open>strip()\<close> removes, as
  far as it lies below 256: tab, line feed, vertical tab, form feed, carriage return, the
  separators 0x1C to 0x1F, the space, 0x85 and the no-break space.
\<close>

definition is_space :: "char \<Rightarrow> bool" where
  "is_space c = (c \<in> set [CHR 0x09, CHR 0x0A, CHR 0x0B, CHR 0x0C, CHR 0x0D, CHR 0x1C, CHR 0x1D,
                          CHR 0x1E, CHR 0x1F, CHR 0x20, CHR 0x85, CHR 0xA0])"

text \<open>\<^verbatim>\<open>s.strip()\<close>: whitespace removed from both ends.\<close>

definition strip :: "string \<Rightarrow> string" where
  "strip s = rev (dropWhile is_space (rev (dropWhile is_space s)))"

text \<open>
  \<^verbatim>\<open>s.split(sep)\<close> for a separator of one character: the pieces between the occurrences
  of \<open>sep\<close>, empty pieces included, so that the result is never empty.
\<close>

fun split :: "char \<Rightarrow> string \<Rightarrow> string list" where
  "split sep [] = [[]]"
| "split sep (c # cs) =
     (if c = sep then [] # split sep cs
      else (case split sep cs of [] \<Rightarrow> [[c]] | p # ps \<Rightarrow> (c # p) # ps))"

text \<open>\<^verbatim>\<open>s.startswith(p)\<close>.\<close>

definition startswith :: "string \<Rightarrow> string \<Rightarrow> bool" where
  "startswith s p = (take (length p) s = p)"

text \<open>
  A Python number, as far as its type matters here: an \<^verbatim>\<open>int\<close> or a \<^verbatim>\<open>float\<close> (carrying
  the exact value it stands for). The code runs on Python 3 (it uses an f-string), where
  \<^verbatim>\<open>a / b\<close> on two integers is true division: it gives a \<^verbatim>\<open>float\<close> whatever the
  operands, and raises \<^verbatim>\<open>ZeroDivisionError\<close> for a zero divisor. \<^verbatim>\<open>range(n)\<close> accepts an
  \<^verbatim>\<open>int\<close> only and raises \<^verbatim>\<open>TypeError\<close> for a \<^verbatim>\<open>float\<close>.
\<close>

datatype number = PyInt int | PyFloat rat

definition truediv :: "int \<Rightarrow> int \<Rightarrow> error + number" where
  "truediv a b =
     (if b = 0 then Inl ZeroDivisionError else Inr (PyFloat (rat_of_int a / rat_of_int b)))"

definition py_range :: "number \<Rightarrow> error + nat list" where
  "py_range n = (case n of PyInt k \<Rightarrow> Inr [0..<nat k] | PyFloat x \<Rightarrow> Inl TypeError)"

text \<open>
  \<^verbatim>\<open>int(s)\<close> on a string, in base 10, as Python 3 does it; \<open>None\<close> stands for the
  \<^verbatim>\<open>ValueError\<close> it raises. Leading whitespace is skipped, then comes an optional sign,
  then the digits, then whitespace up to the end. The whitespace skipped is the ASCII
  one (tab to carriage return, and the space) and, of the characters from 128 on, the
  Unicode spaces, which are turned into spaces beforehand (0x85 and the no-break space);
  the separators 0x1C to 0x1F are not skipped. Between two digits a single underscore is
  allowed; an underscore at either end or two in a row are refused. A literal of more
  than \<open>max_str_digits\<close> digits is refused (the default limit of the interpreter).
\<close>

definition int_space :: "char \<Rightarrow> bool" where
  "int_space c = (c \<in> set [CHR 0x09, CHR 0x0A, CHR 0x0B, CHR 0x0C, CHR 0x0D, CHR 0x20,
                           CHR 0x85, CHR 0xA0])"

definition digit_value :: "char \<Rightarrow> nat option" where
  "digit_value c = map_of (zip ''0123456789'' [0, 1, 2, 3, 4, 5, 6, 7, 8, 9]) c"

fun digits_value :: "nat \<Rightarrow> string \<Rightarrow> nat option" where
  "digits_value acc [] = Some acc"
| "digits_value acc (c # cs) =
     (case digit_value c of None \<Rightarrow> None | Some d \<Rightarrow> digits_value (10 * acc + d) cs)"

fun no_double_underscore :: "string \<Rightarrow> bool" where
  "no_double_underscore (c # d # cs) =
     (\<not> (c = CHR ''_'' \<and> d = CHR ''_'') \<and> no_double_underscore (d # cs))"
| "no_double_underscore cs = True"

definition max_str_digits :: nat where
  "max_str_digits = 4300"

definition py_int :: "string \<Rightarrow> int option" where
  "py_int s =
     (case dropWhile int_space s of
        [] \<Rightarrow> None
      | c # cs \<Rightarrow>
          (let negative = (c = CHR ''-'');
               r = (if c = CHR ''-'' \<or> c = CHR ''+'' then cs else c # cs);
               body = rev (dropWhile int_space (rev r));
               digits = filter (\<lambda>x. x \<noteq> CHR ''_'') body
           in case body of
                [] \<Rightarrow> None
              | b # bs \<Rightarrow>
                  if b = CHR ''_'' \<or> last body = CHR ''_'' \<or> \<not> no_double_underscore body
                     \<or> length digits > max_str_digits
                  then None
                  else (case digits_value 0 digits of
                          None \<Rightarrow> None
                        | Some n \<Rightarrow> Some (if negative then - int n else int n))))"

section \<open>StvForm\<close>

text \<open>
  \<^verbatim>\<open>StvForm.clean_eligibles\<close>. The argument \<open>eligibles\<close> is
  \<^verbatim>\<open>self.cleaned_data.get("eligibles")\<close>, the value of a required \<^verbatim>\<open>CharField\<close>, hence a
  string when the method runs. The built-in \<^verbatim>\<open>int\<close> is the parameter \<open>int_of\<close>: it
  gives \<open>Some n\<close> when \<^verbatim>\<open>int(eligibles)\<close> returns \<open>n\<close> and \<open>None\<close> when it raises
  \<^verbatim>\<open>ValueError\<close>, the only exception the \<^verbatim>\<open>except ValueError as TypeError\<close> clause
  catches; \<open>py_int\<close> above is the function the interpreter supplies. The method never
  looks into the string itself, so what it does is stated for every such function.
\<close>

definition clean_eligibles :: "(string \<Rightarrow> int option) \<Rightarrow> string \<Rightarrow> error + int" where
  "clean_eligibles int_of eligibles =
     (let message = ''Value must be a positve integer''
      in case int_of eligibles of
           None \<Rightarrow> Inl (ValidationError message)
         | Some n \<Rightarrow> if n > 0 then Inr n else Inl (ValidationError message))"

text \<open>
  \<^verbatim>\<open>StvForm.clean_department_limit\<close>. The arguments are the built-in \<^verbatim>\<open>int\<close> as above
  and the cleaned values of \<^verbatim>\<open>has_department_limit\<close> (a \<^verbatim>\<open>BooleanField\<close>, cleaned before
  this field) and of \<^verbatim>\<open>department_limit\<close> (a \<^verbatim>\<open>CharField\<close> that is not required: a string,
  possibly empty).
\<close>

definition clean_department_limit ::
  "(string \<Rightarrow> int option) \<Rightarrow> bool \<Rightarrow> string \<Rightarrow> error + int" where
  "clean_department_limit int_of has_department_limit dep_limit =
     (let message = ''Value must be a positve integer''
      in if has_department_limit
         then (if dep_limit = [] then Inl (ValidationError message)
               else (case int_of dep_limit of
                       None \<Rightarrow> Inl (ValidationError message)
                     | Some n \<Rightarrow> if n > 0 then Inr n else Inl (ValidationError message)))
         else Inr 0)"

text \<open>
  The form object, as far as \<^verbatim>\<open>clean\<close> reads and writes it. \<open>data_keys\<close> are the keys of
  the posted data and \<open>prefix\<close> is the form's prefix. The entries of \<^verbatim>\<open>cleaned_data\<close> are the
  fields \<open>eligibles\<close>, \<open>has_department_limit\<close>, \<open>department_limit\<close>, \<open>droop_quota\<close> (each
  \<open>None\<close> when the key is absent) and \<open>answer\<close>, which maps \<open>i\<close> to the value under
  \<^verbatim>\<open>"answer_%d" % i\<close>. That value is a JSON text holding a list of strings or nulls
  (what \<^verbatim>\<open>CandidateWidget.value_from_datadict\<close> dumps and \<^verbatim>\<open>_clean_answer\<close> loads and
  dumps again); it is kept here as the decoded list. \<open>field_errors\<close> is \<^verbatim>\<open>self._errors\<close>.
\<close>

record StvForm =
  prefix :: string
  data_keys :: "string list"
  eligibles :: "int option"
  has_department_limit :: "bool option"
  department_limit :: "int option"
  droop_quota :: "bool option"
  answer :: "nat \<rightharpoonup> string option list"
  field_errors :: "string \<rightharpoonup> string list"

definition answer_widget_values_len :: nat where
  "answer_widget_values_len = 2"

text \<open>
  \<^verbatim>\<open>StvForm._clean_answer\<close>: returns the pair (key, cleaned value) and the updated
  \<^verbatim>\<open>_errors\<close>. Indexing an empty list raises \<^verbatim>\<open>IndexError\<close> and \<^verbatim>\<open>"%" in None\<close> raises
  \<^verbatim>\<open>TypeError\<close>. An empty name records the error under \<^verbatim>\<open>"answer_0"\<close> (whatever the
  index of the answer) and gives the key \<^verbatim>\<open>None\<close>.
\<close>

definition clean_answer ::
  "(string \<rightharpoonup> string list) \<Rightarrow> string option list
     \<Rightarrow> error + ((string option \<times> string option list) \<times> (string \<rightharpoonup> string list))" where
  "clean_answer errs answer_lst =
     (case answer_lst of
        [] \<Rightarrow> Inl IndexError
      | None # rest \<Rightarrow> Inl TypeError
      | Some name # rest \<Rightarrow>
          if CHR ''%'' \<in> set name then Inl (ValidationError ''% is not a valid character.'')
          else if name = []
            then Inr ((None, []), errs(''answer_0'' \<mapsto> [''This field is required.'']))
            else Inr ((Some (strip name), Some (strip name) # rest), errs))"

text \<open>
  The loop of \<^verbatim>\<open>StvForm.clean\<close> over \<^verbatim>\<open>range(answers)\<close>, carrying the form and
  \<^verbatim>\<open>candidates_list\<close>; a missing \<^verbatim>\<open>cleaned_data[field_key]\<close> raises \<^verbatim>\<open>KeyError\<close>.
\<close>

fun clean_answers ::
  "nat list \<Rightarrow> StvForm \<Rightarrow> string option list \<Rightarrow> error + (StvForm \<times> string option list)" where
  "clean_answers [] f candidates_list = Inr (f, candidates_list)"
| "clean_answers (ans # rest) f candidates_list =
     (case answer f ans of
        None \<Rightarrow> Inl KeyError
      | Some a \<Rightarrow>
          (case clean_answer (field_errors f) a of
             Inl e \<Rightarrow> Inl e
           | Inr ((key, cleaned), errs) \<Rightarrow>
               clean_answers rest
                 (f\<lparr>answer := (answer f)(ans \<mapsto> cleaned), field_errors := errs\<rparr>)
                 (candidates_list @ [key])))"

text \<open>
  \<^verbatim>\<open>StvForm.clean\<close>. \<^verbatim>\<open>answers\<close> is the number of posted keys that start with
  \<^verbatim>\<open>"%s-answer_" % self.prefix\<close>, divided by \<^verbatim>\<open>answer_widget_values_len\<close> with \<^verbatim>\<open>/\<close>;
  the loop runs over \<^verbatim>\<open>range(answers)\<close>. When the loop and the duplicate check pass,
  \<^verbatim>\<open>droop_quota\<close> is set and the result is the form with its cleaned data.
\<close>

definition StvForm_clean :: "StvForm \<Rightarrow> error + StvForm" where
  "StvForm_clean f =
     (case truediv
             (int (length (filter (\<lambda>k. startswith k (prefix f @ ''-answer_'')) (data_keys f))))
             (int answer_widget_values_len) of
        Inl e \<Rightarrow> Inl e
      | Inr answers \<Rightarrow>
          (case py_range answers of
             Inl e \<Rightarrow> Inl e
           | Inr indices \<Rightarrow>
               (case clean_answers indices f [] of
                  Inl e \<Rightarrow> Inl e
                | Inr (f', candidates_list) \<Rightarrow>
                    if length candidates_list > card (set candidates_list)
                    then Inl (ValidationError ''No duplicate choices allowed'')
                    else Inr (f'\<lparr>droop_quota := Some True\<rparr>))))"

text \<open>\<^verbatim>\<open>UniCouncilsGrForm.clean\<close>: the parent's \<^verbatim>\<open>clean\<close>, then the flag is forced.\<close>

definition UniCouncilsGrForm_clean :: "StvForm \<Rightarrow> error + StvForm" where
  "UniCouncilsGrForm_clean f =
     (case StvForm_clean f of
        Inl e \<Rightarrow> Inl e
      | Inr f' \<Rightarrow> Inr (f'\<lparr>droop_quota := Some False\<rparr>))"

section \<open>STVElectionForm\<close>

text \<open>
  \<^verbatim>\<open>STVElectionForm.clean_candidates\<close>: the text is stripped and split into lines, every
  line is stripped, and a line that does not split into four parts at its commas raises.
\<close>

fun check_candidates :: "string list \<Rightarrow> error option" where
  "check_candidates [] = None"
| "check_candidates (c # cs) =
     (if length (split CHR '','' c) \<noteq> 4
      then Some (ValidationError (''Candidate '' @ c @ '' is invalid''))
      else check_candidates cs)"

definition clean_candidates :: "string \<Rightarrow> error + string list" where
  "clean_candidates text =
     (let candidates = map strip (split CHR 0x0A (strip text))
      in case check_candidates candidates of
           Some e \<Rightarrow> Inl e
         | None \<Rightarrow> Inr candidates)"


section \<open>Properties\<close>

subsection \<open>Auxiliary facts about lists\<close>

lemma map_enumerate_fst:
  "map (\<lambda>x. g (fst x)) (enumerate k cs) = map g [k..<k + length cs]"
proof -
  have "map g (map fst (enumerate k cs)) = map g [k..<k + length cs]"
    by (simp only: map_fst_enumerate)
  then show ?thesis
    unfolding map_map comp_def .
qed

lemma takeWhile_enumerate:
  "map fst (takeWhile P (enumerate k cs)) = [k..<k + length (takeWhile P (enumerate k cs))]"
proof -
  let ?m = "length (takeWhile P (enumerate k cs))"
  have le: "?m \<le> length cs"
    using length_takeWhile_le [of P "enumerate k cs"] by simp
  have "map fst (takeWhile P (enumerate k cs)) = map fst (take ?m (enumerate k cs))"
    by (rule arg_cong [OF takeWhile_eq_take])
  also have "\<dots> = take ?m [k..<k + length cs]"
    unfolding take_map [symmetric] by simp
  also have "\<dots> = [k..<k + ?m]"
    using le by (simp add: take_upt)
  finally show ?thesis .
qed

lemma filter_takeWhile_gap:
  "i < j \<Longrightarrow> j < length xs \<Longrightarrow> \<not> P (xs ! i) \<Longrightarrow> P (xs ! j)
     \<Longrightarrow> filter P xs \<noteq> takeWhile P xs"
proof (induction xs arbitrary: i j)
  case Nil
  then show ?case by simp
next
  case (Cons x xs)
  show ?case
  proof (cases "P x")
    case False
    have "(x # xs) ! j \<in> set (x # xs)"
      using Cons.prems(2) nth_mem by blast
    with Cons.prems(4) have "filter P (x # xs) \<noteq> []"
      by (simp only: filter_empty_conv) blast
    with False show ?thesis by simp
  next
    case True
    with Cons.prems(3) obtain i' where i: "i = Suc i'"
      by (cases i) auto
    with Cons.prems(1) obtain j' where j: "j = Suc j'"
      by (cases j) auto
    from Cons.IH [of i' j'] Cons.prems i j True show ?thesis
      by simp
  qed
qed

lemma filter_not_distinct:
  "i < j \<Longrightarrow> j < length xs \<Longrightarrow> xs ! i = xs ! j \<Longrightarrow> P (xs ! i)
     \<Longrightarrow> \<not> distinct (filter P xs)"
proof (induction xs arbitrary: i j)
  case Nil
  then show ?case by simp
next
  case (Cons x xs)
  from Cons.prems(1) obtain j' where j: "j = Suc j'"
    by (cases j) auto
  show ?case
  proof (cases i)
    case 0
    with Cons.prems j have "x = xs ! j'" "j' < length xs" "P x"
      by simp_all
    then have "x \<in> set (filter P xs)"
      by simp
    with \<open>P x\<close> show ?thesis by simp
  next
    case (Suc i')
    with Cons.IH [of i' j'] Cons.prems j have "\<not> distinct (filter P xs)"
      by simp
    then show ?thesis by simp
  qed
qed

lemma takeWhile_none: "\<forall>x \<in> set xs. \<not> P x \<Longrightarrow> takeWhile P xs = []"
  by (cases xs) simp_all

subsection \<open>The loops of the ballot form\<close>

lemma length_cleaned_choices [simp]: "length (cleaned_choices f) = length (candidates f)"
  by (simp add: cleaned_choices_def)

lemma nth_cleaned_choices:
  "i < length (candidates f) \<Longrightarrow> cleaned_choices f ! i = cleaned_data_get f (i + 1)"
  by (simp add: cleaned_choices_def nth_enumerate_eq)

lemma get_choices_loop_eq:
  "get_choices_loop f ics vs
     = vs @ map (\<lambda>(i, c). \<lparr>rank = i + 1, candidateTmpId = cleaned_data_get f (i + 1)\<rparr>)
              (takeWhile (\<lambda>(i, c). cleaned_data_get f (i + 1) \<noteq> []) ics)"
  by (induction f ics vs rule: get_choices_loop.induct) (simp_all add: Let_def)

lemma get_choices_ranks:
  "map rank (votes (get_choices f serial)) = [1..<length (votes (get_choices f serial)) + 1]"
proof -
  let ?P = "\<lambda>(i, c). cleaned_data_get f (i + 1) \<noteq> []"
  let ?tw = "takeWhile ?P (enumerate 0 (candidates f))"
  have "map rank (votes (get_choices f serial)) = map Suc (map fst ?tw)"
    by (simp add: get_choices_def get_choices_loop_eq case_prod_unfold comp_def)
  also have "\<dots> = map Suc [0..<length ?tw]"
    using takeWhile_enumerate [of ?P 0 "candidates f"] by simp
  also have "\<dots> = [1..<length ?tw + 1]"
    by (simp add: map_Suc_upt del: upt_Suc)
  finally show ?thesis
    by (simp add: get_choices_def get_choices_loop_eq)
qed

lemma get_choices_ids:
  "map candidateTmpId (votes (get_choices f serial))
     = takeWhile (\<lambda>v. v \<noteq> []) (cleaned_choices f)"
  by (simp add: get_choices_def get_choices_loop_eq cleaned_choices_def takeWhile_map
      comp_def case_prod_unfold)

lemma clean_loop_eq:
  "clean_loop f ics e ch =
     (let xs = map (\<lambda>(i, c). cleaned_data_get f (i + 1)) ics;
          ne = filter (\<lambda>v. v \<noteq> []) xs
      in if (if e then ne = [] else ne = takeWhile (\<lambda>v. v \<noteq> []) xs)
         then Inr (ch @ ne) else Inl (ValidationError ''Invalid ballot''))"
  by (induction f ics e ch rule: clean_loop.induct) (simp_all add: Let_def)

lemma STVBallotForm_clean_eq:
  "STVBallotForm_clean f =
     (let ne = filter (\<lambda>v. v \<noteq> []) (cleaned_choices f)
      in if ne = takeWhile (\<lambda>v. v \<noteq> []) (cleaned_choices f) \<and> distinct ne
         then Inr (cleaned_data f) else Inl (ValidationError ''Invalid ballot''))"
proof -
  have card: "(length ys \<noteq> card (set ys)) = (\<not> distinct ys)" for ys :: "string list"
    using distinct_card [of ys] card_distinct [of ys] by auto
  show ?thesis
    unfolding STVBallotForm_clean_def clean_loop_eq cleaned_choices_def [symmetric]
    by (simp add: Let_def card)
qed

subsection \<open>Field validation\<close>

lemma ChoiceField_clean_Inr:
  "ChoiceField_clean choices raw = Inr v \<Longrightarrow>
     v = (case raw of None \<Rightarrow> [] | Some s \<Rightarrow> s) \<and> (v = [] \<or> v \<in> fst ` set choices)"
  unfolding ChoiceField_clean_def Let_def by (auto split: if_splits)

lemma ChoiceField_clean_ok:
  "(case raw of None \<Rightarrow> [] | Some s \<Rightarrow> s) = v \<Longrightarrow> v = [] \<or> v \<in> fst ` set choices
     \<Longrightarrow> ChoiceField_clean choices raw = Inr v"
  unfolding ChoiceField_clean_def Let_def by auto

lemma clean_fields_unchanged [simp]:
  "candidates (clean_fields f fs) = candidates f"
  "data (clean_fields f fs) = data f"
  "form_fields (clean_fields f fs) = form_fields f"
  by (induction f fs rule: clean_fields.induct) (simp_all split: sum.splits)

lemma clean_fields_errors:
  "errors (clean_fields f fs) = [] \<longleftrightarrow>
     errors f = [] \<and> (\<forall>(k, choices) \<in> set fs. \<exists>v. ChoiceField_clean choices (data f k) = Inr v)"
proof (induction f fs rule: clean_fields.induct)
  case (1 f)
  then show ?case by simp
next
  case (2 f k choices rest)
  show ?case
  proof (cases "ChoiceField_clean choices (data f k)")
    case (Inl e)
    with 2 show ?thesis by simp
  next
    case (Inr v)
    with 2 show ?thesis by simp
  qed
qed

lemma clean_fields_other:
  "k \<notin> fst ` set fs \<Longrightarrow> cleaned_data (clean_fields f fs) k = cleaned_data f k"
  by (induction f fs rule: clean_fields.induct) (auto split: sum.splits)

lemma clean_fields_value:
  "distinct (map fst fs) \<Longrightarrow> (k, choices) \<in> set fs
     \<Longrightarrow> ChoiceField_clean choices (data f k) = Inr v
     \<Longrightarrow> cleaned_data (clean_fields f fs) k = Some v"
proof (induction f fs rule: clean_fields.induct)
  case (1 f)
  then show ?case by simp
next
  case (2 f k' choices' rest)
  show ?case
  proof (cases "(k, choices) = (k', choices')")
    case True
    with "2.prems" have "k \<notin> fst ` set rest"
      by auto
    with True "2.prems"(3) show ?thesis
      by (simp add: clean_fields_other)
  next
    case False
    with "2.prems" have "(k, choices) \<in> set rest" "distinct (map fst rest)"
      by auto
    with "2.IH" "2.prems"(3) show ?thesis
      by (simp split: sum.splits)
  qed
qed

lemma clean_fields_origin:
  "cleaned_data (clean_fields f fs) k = Some v \<Longrightarrow>
     cleaned_data f k = Some v
     \<or> (\<exists>choices. (k, choices) \<in> set fs \<and> ChoiceField_clean choices (data f k) = Inr v)"
proof (induction f fs rule: clean_fields.induct)
  case (1 f)
  then show ?case by simp
next
  case (2 f k' choices' rest)
  then show ?case
    by (cases "ChoiceField_clean choices' (data f k')") (auto split: if_splits)
qed

lemma full_clean_valid:
  assumes "is_valid f"
  shows "full_clean f = clean_fields (f\<lparr>cleaned_data := Map.empty, errors := []\<rparr>) (form_fields f)"
    and "STVBallotForm_clean (full_clean f) = Inr (cleaned_data (full_clean f))"
    and "errors (clean_fields (f\<lparr>cleaned_data := Map.empty, errors := []\<rparr>) (form_fields f)) = []"
proof -
  let ?f1 = "clean_fields (f\<lparr>cleaned_data := Map.empty, errors := []\<rparr>) (form_fields f)"
  from assms obtain cd where cd: "STVBallotForm_clean ?f1 = Inr cd"
    unfolding is_valid_def full_clean_def Let_def
    by (cases "STVBallotForm_clean ?f1") auto
  then have cd_eq: "cd = cleaned_data ?f1"
    unfolding STVBallotForm_clean_eq Let_def by (auto split: if_splits)
  with cd show 1: "full_clean f = ?f1"
    unfolding full_clean_def Let_def by simp
  from cd cd_eq 1 show "STVBallotForm_clean (full_clean f) = Inr (cleaned_data (full_clean f))"
    by simp
  from assms 1 show "errors ?f1 = []"
    by (simp add: is_valid_def)
qed

lemma full_clean_candidates [simp]: "candidates (full_clean f) = candidates f"
  unfolding full_clean_def Let_def by (simp split: sum.splits)

lemma valid_no_gap_distinct:
  assumes "is_valid f"
  shows "filter (\<lambda>v. v \<noteq> []) (cleaned_choices (full_clean f))
           = takeWhile (\<lambda>v. v \<noteq> []) (cleaned_choices (full_clean f))"
    and "distinct (filter (\<lambda>v. v \<noteq> []) (cleaned_choices (full_clean f)))"
  using full_clean_valid(2) [OF assms]
  unfolding STVBallotForm_clean_eq Let_def
  by (simp_all split: if_splits)

subsection \<open>The form as \<^verbatim>\<open>__init__\<close> builds it\<close>

lemma init_simps [simp]:
  "candidates (STVBallotForm_init cands d) = cands"
  "data (STVBallotForm_init cands d) = d"
  by (simp_all add: STVBallotForm_init_def)

lemma init_fields:
  "form_fields (STVBallotForm_init cands d)
     = map (\<lambda>i. (Suc i, STVBallotForm_choices cands)) [0..<length cands]"
  using map_enumerate_fst [of "\<lambda>i. (Suc i, STVBallotForm_choices cands)" 0 cands]
  by (simp add: STVBallotForm_init_def comp_def case_prod_unfold)

lemma init_fields_distinct: "distinct (map fst (form_fields (STVBallotForm_init cands d)))"
  by (simp add: init_fields comp_def distinct_map inj_on_def)

lemma init_fields_mem:
  "(k, choices) \<in> set (form_fields (STVBallotForm_init cands d))
     \<longleftrightarrow> 1 \<le> k \<and> k \<le> length cands \<and> choices = STVBallotForm_choices cands"
proof
  assume "(k, choices) \<in> set (form_fields (STVBallotForm_init cands d))"
  then show "1 \<le> k \<and> k \<le> length cands \<and> choices = STVBallotForm_choices cands"
    by (auto simp add: init_fields)
next
  assume a: "1 \<le> k \<and> k \<le> length cands \<and> choices = STVBallotForm_choices cands"
  then obtain i where "k = Suc i" "i < length cands"
    by (cases k) auto
  with a show "(k, choices) \<in> set (form_fields (STVBallotForm_init cands d))"
    by (simp add: init_fields)
qed

lemma choices_values:
  "fst ` set (STVBallotForm_choices cands) = insert [] (str ` {0..<length cands})"
proof -
  have "set (map fst (STVBallotForm_choices cands)) = insert [] (str ` {0..<length cands})"
    using map_enumerate_fst [of str 0 cands]
    by (simp add: STVBallotForm_choices_def comp_def case_prod_unfold)
  then show ?thesis
    by simp
qed

lemma str_nonempty: "str n \<noteq> []"
  by (subst str.simps) simp

lemma init_field_value:
  assumes "1 \<le> k" "k \<le> length cands"
    and "ChoiceField_clean (STVBallotForm_choices cands) (d k) = Inr v"
  shows "cleaned_data
           (clean_fields ((STVBallotForm_init cands d)\<lparr>cleaned_data := Map.empty, errors := []\<rparr>)
              (form_fields (STVBallotForm_init cands d))) k = Some v"
proof (rule clean_fields_value)
  show "distinct (map fst (form_fields (STVBallotForm_init cands d)))"
    by (rule init_fields_distinct)
  show "(k, STVBallotForm_choices cands) \<in> set (form_fields (STVBallotForm_init cands d))"
    using assms(1,2) by (simp add: init_fields_mem)
  show "ChoiceField_clean (STVBallotForm_choices cands)
          (data ((STVBallotForm_init cands d)\<lparr>cleaned_data := Map.empty, errors := []\<rparr>) k) = Inr v"
    using assms(3) by simp
qed

lemma init_field_fails:
  assumes "1 \<le> k" "k \<le> length cands"
    and "ChoiceField_clean (STVBallotForm_choices cands) (d k) = Inl e"
  shows "\<not> is_valid (STVBallotForm_init cands d)"
proof
  assume "is_valid (STVBallotForm_init cands d)"
  from full_clean_valid(3) [OF this]
  have "\<forall>(k, choices) \<in> set (form_fields (STVBallotForm_init cands d)).
          \<exists>v. ChoiceField_clean choices (d k) = Inr v"
    by (simp add: clean_fields_errors)
  moreover have "(k, STVBallotForm_choices cands) \<in> set (form_fields (STVBallotForm_init cands d))"
    using assms(1,2) by (simp add: init_fields_mem)
  ultimately show False
    using assms(3) by auto
qed

lemma init_valid_cleaned_get:
  assumes "is_valid (STVBallotForm_init cands d)" "1 \<le> k" "k \<le> length cands"
  shows "cleaned_data_get (full_clean (STVBallotForm_init cands d)) k
           = (case d k of None \<Rightarrow> [] | Some s \<Rightarrow> s)"
proof (cases "ChoiceField_clean (STVBallotForm_choices cands) (d k)")
  case (Inl e)
  with init_field_fails [OF assms(2,3)] assms(1) show ?thesis
    by blast
next
  case (Inr v)
  from init_field_value [of k cands d v] assms(2,3) Inr full_clean_valid(1) [OF assms(1)]
  have "cleaned_data_get (full_clean (STVBallotForm_init cands d)) k = v"
    by (simp add: cleaned_data_get_def)
  with ChoiceField_clean_Inr [OF Inr] show ?thesis
    by simp
qed

lemma init_candidate_value:
  assumes "1 \<le> k" "k \<le> length cands" "c < length cands" "d k = Some (str c)"
  shows "cleaned_data_get
           (clean_fields ((STVBallotForm_init cands d)\<lparr>cleaned_data := Map.empty, errors := []\<rparr>)
              (form_fields (STVBallotForm_init cands d))) k = str c"
proof -
  have "ChoiceField_clean (STVBallotForm_choices cands) (d k) = Inr (str c)"
    using assms(3,4) by (intro ChoiceField_clean_ok) (simp_all add: choices_values)
  from init_field_value [of k cands d "str c"] assms(1,2) this show ?thesis
    by (simp add: cleaned_data_get_def)
qed

lemma stv_count_ballots_invalid:
  "d \<in> set posted \<Longrightarrow> \<not> is_valid (STVBallotForm_init cands d)
     \<Longrightarrow> stv_count_ballots cands posted = None"
  unfolding stv_count_ballots_def Let_def is_valid_def
  by (auto simp add: list_all_iff)

subsection \<open>The ballots assembled by the view\<close>

lemma ballots_loop_eq:
  "ballots_loop ibs ballots
     = ballots @ filter (\<lambda>b. votes b \<noteq> []) (map (\<lambda>(i, b). get_choices b (i + 1)) ibs)"
  by (induction ibs ballots rule: ballots_loop.induct) (simp_all add: Let_def)

lemma stv_count_ballots_Some:
  assumes "stv_count_ballots cands posted = Some ballots"
  shows "ballots = filter (\<lambda>b. votes b \<noteq> [])
           (map (\<lambda>(i, d). get_choices (full_clean (STVBallotForm_init cands d)) (i + 1))
              (enumerate 0 posted))"
    and "\<forall>d \<in> set posted. is_valid (STVBallotForm_init cands d)"
proof -
  have "enumerate 0 (map (\<lambda>d. full_clean (STVBallotForm_init cands d)) posted)
          = map (\<lambda>(i, d). (i, full_clean (STVBallotForm_init cands d))) (enumerate 0 posted)"
    by (induction posted rule: rev_induct) (simp_all add: enumerate_append_eq)
  with assms show "ballots = filter (\<lambda>b. votes b \<noteq> [])
           (map (\<lambda>(i, d). get_choices (full_clean (STVBallotForm_init cands d)) (i + 1))
              (enumerate 0 posted))"
    unfolding stv_count_ballots_def Let_def
    by (auto simp add: ballots_loop_eq comp_def case_prod_unfold split: if_splits)
  from assms show "\<forall>d \<in> set posted. is_valid (STVBallotForm_init cands d)"
    unfolding stv_count_ballots_def Let_def is_valid_def
    by (auto simp add: list_all_iff split: if_splits)
qed

lemma empty_ballot_valid:
  assumes "\<forall>k. d k = None \<or> d k = Some []"
  shows "is_valid (STVBallotForm_init cands d)"
    and "votes (get_choices (full_clean (STVBallotForm_init cands d)) serial) = []"
proof -
  let ?f = "STVBallotForm_init cands d"
  let ?f1 = "clean_fields (?f\<lparr>cleaned_data := Map.empty, errors := []\<rparr>) (form_fields ?f)"
  have field: "ChoiceField_clean choices (d k) = Inr []" for choices k
    using assms [rule_format, of k] by (intro ChoiceField_clean_ok) auto
  then have errs: "errors ?f1 = []"
    by (simp add: clean_fields_errors case_prod_unfold)
  have get: "cleaned_data_get ?f1 k = []" for k
  proof (cases "cleaned_data ?f1 k")
    case None
    then show ?thesis by (simp add: cleaned_data_get_def)
  next
    case (Some v)
    from clean_fields_origin [OF Some] field have "v = []"
      by auto
    with Some show ?thesis by (simp add: cleaned_data_get_def)
  qed
  then have all: "\<forall>x \<in> set (cleaned_choices ?f1). x = []"
    by (auto simp add: cleaned_choices_def)
  then have flt: "filter (\<lambda>v. v \<noteq> []) (cleaned_choices ?f1) = []"
    by (simp add: filter_empty_conv)
  have tw: "takeWhile (\<lambda>v. v \<noteq> []) (cleaned_choices ?f1) = []"
    using all by (intro takeWhile_none) simp
  from flt tw have "STVBallotForm_clean ?f1 = Inr (cleaned_data ?f1)"
    unfolding STVBallotForm_clean_eq Let_def by simp
  then have fc: "full_clean ?f = ?f1"
    unfolding full_clean_def Let_def by simp
  with errs show "is_valid ?f"
    by (simp add: is_valid_def)
  have "map candidateTmpId (votes (get_choices (full_clean ?f) serial)) = []"
    unfolding get_choices_ids fc tw ..
  then show "votes (get_choices (full_clean ?f) serial) = []"
    by simp
qed

lemma serial_get_choices [simp]: "ballotSerialNumber (get_choices f serial) = serial"
  by (simp add: get_choices_def)

lemma filtered_serials_sorted:
  "sorted_wrt (<) (map ballotSerialNumber
      (filter P (map (\<lambda>(i, d). get_choices (G d) (i + 1)) (enumerate k posted))))"
proof -
  have "sorted_wrt (<) (map fst (enumerate k posted))"
    by simp
  then have "sorted_wrt (\<lambda>x y. fst x < fst y) (enumerate k posted)"
    unfolding sorted_wrt_map .
  then have "sorted_wrt (\<lambda>x y. fst x < fst y)
      (filter (P \<circ> (\<lambda>(i, d). get_choices (G d) (i + 1))) (enumerate k posted))"
    by (rule sorted_wrt_filter)
  then show ?thesis
    by (simp add: filter_map sorted_wrt_map comp_def case_prod_unfold)
qed

lemma filtered_members:
  assumes "b \<in> set (filter P (map (\<lambda>(i, d). get_choices (G d) (i + 1)) (enumerate 0 posted)))"
  shows "0 < ballotSerialNumber b \<and> ballotSerialNumber b \<le> length posted
     \<and> b = get_choices (G (posted ! (ballotSerialNumber b - 1))) (ballotSerialNumber b)"
proof -
  from assms obtain p where p: "p \<in> set (enumerate 0 posted)"
    and b: "b = get_choices (G (snd p)) (fst p + 1)"
    by (auto simp add: case_prod_unfold)
  from p have "fst p < length posted" "posted ! fst p = snd p"
    by (simp_all add: in_set_enumerate_eq)
  with b show ?thesis
    by simp
qed

subsection \<open>The election forms\<close>

lemma check_candidates_None:
  "check_candidates cs = None \<longleftrightarrow> (\<forall>c \<in> set cs. length (split CHR '','' c) = 4)"
  by (induction cs) auto

lemma py_range_truediv: "truediv a b = Inr n \<Longrightarrow> py_range n = Inl TypeError"
  unfolding truediv_def py_range_def by (auto split: if_splits)

lemma StvForm_clean_TypeError: "StvForm_clean f = Inl TypeError"
proof -
  let ?n = "int (length (filter (\<lambda>k. startswith k (prefix f @ ''-answer_'')) (data_keys f)))"
  obtain answers where a: "truediv ?n (int answer_widget_values_len) = Inr answers"
    unfolding truediv_def answer_widget_values_len_def by simp
  then have "py_range answers = Inl TypeError"
    by (rule py_range_truediv)
  with a show ?thesis
    unfolding StvForm_clean_def by simp
qed

lemma UniCouncilsGrForm_clean_TypeError: "UniCouncilsGrForm_clean f = Inl TypeError"
  unfolding UniCouncilsGrForm_clean_def by (simp add: StvForm_clean_TypeError)

text \<open>
  \<open>py_int\<close> on some strings: a plain numeral, one with surrounding whitespace and a sign,
  one with an underscore between digits, the forms of the underscore that are refused, a
  numeral after the separator 0x1C (not skipped) and after a no-break space (skipped).
\<close>

lemma py_int_examples:
  "py_int ''12'' = Some 12"
  "py_int '' +42 '' = Some 42"
  "py_int ''-3'' = Some (- 3)"
  "py_int ''0'' = Some 0"
  "py_int ''1_000'' = Some 1000"
  "py_int ''1__0'' = None"
  "py_int ''_1'' = None"
  "py_int ''1_'' = None"
  "py_int ''+ 3'' = None"
  "py_int ''1.5'' = None"
  "py_int [] = None"
  "py_int [CHR 0x1C, CHR ''3''] = None"
  "py_int [CHR 0xA0, CHR ''3''] = Some 3"
  by code_simp+

lemma clean_eligibles_py_int_examples:
  "clean_eligibles py_int ''1_000'' = Inr 1000"
  "clean_eligibles py_int [CHR 0x1C, CHR ''3'']
     = Inl (ValidationError ''Value must be a positve integer'')"
  "clean_eligibles py_int ''0'' = Inl (ValidationError ''Value must be a positve integer'')"
  "clean_department_limit py_int True ''1_0'' = Inr 10"
  "clean_department_limit py_int False ''1_0'' = Inr 0"
  by code_simp+

section \<open>The claims\<close>

subsection \<open>Ballots without choices\<close>

text \<open>
  C1, as stated, fails: a ballot with no choices passes validation but the view skips it
  (\<^verbatim>\<open>if not choices.get('votes'): continue\<close>), so it is not in the ballot list handed
  to the counting engine. Two ballots are posted, the second empty; one is handed on.
\<close>

theorem empty_ballot_omitted_counterexample:
  "is_valid (STVBallotForm_init [''A B C:S'', ''D E F:T''] Map.empty)
   \<and> votes (get_choices (full_clean (STVBallotForm_init [''A B C:S'', ''D E F:T''] Map.empty)) 2) = []
   \<and> stv_count_ballots [''A B C:S'', ''D E F:T''] [[1 \<mapsto> ''0''], Map.empty]
       = Some [\<lparr>votes = [\<lparr>rank = 1, candidateTmpId = ''0''\<rparr>], ballotSerialNumber = 1\<rparr>]"
  by code_simp

text \<open>
  C1, amended. A ballot whose ranked sequence is empty is accepted by validation and
  yields a vote with no entries; the ballot list handed to the counting engine is, for
  every valid submission of the formset, exactly the list of the ballots that have at
  least one choice, in the order posted: ballots without choices are left out.
\<close>

theorem empty_ballot_accepted_but_skipped:
  "((\<forall>k. d k = None \<or> d k = Some [])
      \<longrightarrow> is_valid (STVBallotForm_init cands d)
        \<and> votes (get_choices (full_clean (STVBallotForm_init cands d)) serial) = [])
   \<and> (stv_count_ballots cands posted = Some ballots
      \<longrightarrow> ballots = filter (\<lambda>b. votes b \<noteq> [])
            (map (\<lambda>(i, d). get_choices (full_clean (STVBallotForm_init cands d)) (i + 1))
               (enumerate 0 posted))
        \<and> (\<forall>b \<in> set ballots. votes b \<noteq> []))"
proof (intro conjI impI)
  assume "\<forall>k. d k = None \<or> d k = Some []"
  then show "is_valid (STVBallotForm_init cands d)"
    and "votes (get_choices (full_clean (STVBallotForm_init cands d)) serial) = []"
    by (rule empty_ballot_valid)+
next
  assume "stv_count_ballots cands posted = Some ballots"
  then show eq: "ballots = filter (\<lambda>b. votes b \<noteq> [])
            (map (\<lambda>(i, d). get_choices (full_clean (STVBallotForm_init cands d)) (i + 1))
               (enumerate 0 posted))"
    by (rule stv_count_ballots_Some(1))
  show "\<forall>b \<in> set ballots. votes b \<noteq> []"
    by (subst eq) simp
qed

theorem empty_ballot_accepted_but_skipped_witness:
  "(\<forall>k. (Map.empty :: nat \<rightharpoonup> string) k = None \<or> (Map.empty :: nat \<rightharpoonup> string) k = Some [])
   \<and> is_valid (STVBallotForm_init [''A B C:S'', ''D E F:T''] Map.empty)
   \<and> stv_count_ballots [''A B C:S'', ''D E F:T''] [[1 \<mapsto> ''0''], Map.empty]
       = Some [\<lparr>votes = [\<lparr>rank = 1, candidateTmpId = ''0''\<rparr>], ballotSerialNumber = 1\<rparr>]
   \<and> votes (get_choices
        (full_clean (STVBallotForm_init [''A B C:S'', ''D E F:T''] Map.empty)) 2) = []"
proof -
  have c: "stv_count_ballots [''A B C:S'', ''D E F:T''] [[1 \<mapsto> ''0''], Map.empty]
       = Some [\<lparr>votes = [\<lparr>rank = 1, candidateTmpId = ''0''\<rparr>], ballotSerialNumber = 1\<rparr>]"
    by code_simp
  have h: "\<forall>k. (Map.empty :: nat \<rightharpoonup> string) k = None \<or> (Map.empty :: nat \<rightharpoonup> string) k = Some []"
    by simp
  from c h show ?thesis
    using empty_ballot_accepted_but_skipped
      [of Map.empty "[''A B C:S'', ''D E F:T'']" 2 "[[1 \<mapsto> ''0''], Map.empty]"
          "[\<lparr>votes = [\<lparr>rank = 1, candidateTmpId = ''0''\<rparr>], ballotSerialNumber = 1\<rparr>]"]
    by blast
qed

subsection \<open>The Droop quota\<close>

lemma floor_rat_div: "\<lfloor>rat_of_nat a / rat_of_nat b\<rfloor> = int (a div b)"
proof -
  have "\<lfloor>rat_of_nat a / rat_of_nat b\<rfloor> = \<lfloor>rat_of_int (int a) / rat_of_int (int b)\<rfloor>"
    by simp
  also have "\<dots> = int a div int b"
    by (rule floor_divide_of_int_eq)
  finally show ?thesis
    by (simp add: zdiv_int)
qed

text \<open>
  C2. Under the Droop policy the Quota Calculator returns
  \<open>floor (valid_ballot_count / (seats + 1)) + 1\<close>, the integer quotient plus one, for every
  positive ballot count and seat number that the registry can fill; with 3 valid ballots
  and 1 seat (two candidates, Scenario A) the quota is 2.
\<close>

theorem compute_droop_quota:
  "(0 < valid_ballot_count \<and> 0 < seats \<and> seats \<le> length registry \<longrightarrow>
      compute registry valid_ballot_count seats True
        = Inr (int (valid_ballot_count div (seats + 1)) + 1))
   \<and> compute [0, 1] 3 1 True = Inr 2"
proof -
  have general: "compute r v s True = Inr (int (v div (s + 1)) + 1)"
    if "0 < v" "s \<le> length r" for r v s
    using that unfolding compute_def floor_rat_div by simp
  have "(3::nat) div (1 + 1) = 1"
    by code_simp
  with general [of 3 1 "[0, 1]"] have "compute [0, 1] 3 1 True = Inr 2"
    by simp
  with general show ?thesis
    by blast
qed

theorem compute_droop_quota_witness:
  "(0::nat) < 5 \<and> (0::nat) < 2 \<and> 2 \<le> length [0::nat, 1, 2]
   \<and> compute [0, 1, 2] 5 2 True = Inr 2"
  using compute_droop_quota [of 5 2 "[0, 1, 2]"] by simp

subsection \<open>Ranks of a vote\<close>

text \<open>
  C3. For every ballot form that passes validation, the vote that \<^verbatim>\<open>get_choices\<close> returns
  carries the ranks 1, 2, ..., k in ascending order with no gap, and its candidate
  identifiers are all the non-empty choices of the form, in order: nothing is dropped, so
  the preference list is a contiguous prefix. A submission in which a non-empty choice
  follows an empty (or absent) one does not pass validation.
\<close>

theorem get_choices_ranks_contiguous:
  "(is_valid f \<longrightarrow>
      map rank (votes (get_choices (full_clean f) serial))
        = [1..<length (votes (get_choices (full_clean f) serial)) + 1]
      \<and> map candidateTmpId (votes (get_choices (full_clean f) serial))
        = filter (\<lambda>v. v \<noteq> []) (cleaned_choices (full_clean f)))
   \<and> (i < j \<and> j < length cands
        \<and> (d (i + 1) = None \<or> d (i + 1) = Some [])
        \<and> d (j + 1) = Some v \<and> v \<noteq> []
      \<longrightarrow> \<not> is_valid (STVBallotForm_init cands d))"
proof (intro conjI impI)
  assume "is_valid f"
  show "map rank (votes (get_choices (full_clean f) serial))
          = [1..<length (votes (get_choices (full_clean f) serial)) + 1]"
    by (rule get_choices_ranks)
  show "map candidateTmpId (votes (get_choices (full_clean f) serial))
          = filter (\<lambda>v. v \<noteq> []) (cleaned_choices (full_clean f))"
    using valid_no_gap_distinct(1) [OF \<open>is_valid f\<close>] get_choices_ids [of "full_clean f" serial]
    by simp
next
  let ?f = "STVBallotForm_init cands d"
  let ?xs = "cleaned_choices (full_clean ?f)"
  assume a: "i < j \<and> j < length cands \<and> (d (i + 1) = None \<or> d (i + 1) = Some [])
               \<and> d (j + 1) = Some v \<and> v \<noteq> []"
  show "\<not> is_valid ?f"
  proof
    assume valid: "is_valid ?f"
    from a have "cleaned_data_get (full_clean ?f) (i + 1) = []"
      using init_valid_cleaned_get [OF valid, of "i + 1"] by auto
    moreover from a have "cleaned_data_get (full_clean ?f) (j + 1) \<noteq> []"
      using init_valid_cleaned_get [OF valid, of "j + 1"] by auto
    ultimately have "\<not> (\<lambda>v. v \<noteq> []) (?xs ! i)" "(\<lambda>v. v \<noteq> []) (?xs ! j)"
      using a by (simp_all add: nth_cleaned_choices)
    with a have "filter (\<lambda>v. v \<noteq> []) ?xs \<noteq> takeWhile (\<lambda>v. v \<noteq> []) ?xs"
      using filter_takeWhile_gap [of i j ?xs "\<lambda>v. v \<noteq> []"] by simp
    with valid_no_gap_distinct(1) [OF valid] show False
      by simp
  qed
qed

theorem get_choices_ranks_contiguous_witness:
  "is_valid (STVBallotForm_init [''a'', ''b'', ''c''] [1 \<mapsto> ''2'', 2 \<mapsto> ''0''])
   \<and> votes (get_choices (full_clean (STVBallotForm_init [''a'', ''b'', ''c''] [1 \<mapsto> ''2'', 2 \<mapsto> ''0''])) 7)
       = [\<lparr>rank = 1, candidateTmpId = ''2''\<rparr>, \<lparr>rank = 2, candidateTmpId = ''0''\<rparr>]
   \<and> \<not> is_valid (STVBallotForm_init [''a'', ''b'', ''c''] [1 \<mapsto> ''2'', 3 \<mapsto> ''0''])"
proof -
  let ?f = "STVBallotForm_init [''a'', ''b'', ''c''] [1 \<mapsto> ''2'', 2 \<mapsto> ''0'']"
  have valid: "is_valid ?f"
    by code_simp
  have v: "votes (get_choices (full_clean ?f) 7)
       = [\<lparr>rank = 1, candidateTmpId = ''2''\<rparr>, \<lparr>rank = 2, candidateTmpId = ''0''\<rparr>]"
    by code_simp
  have "\<not> is_valid (STVBallotForm_init [''a'', ''b'', ''c''] [1 \<mapsto> ''2'', 3 \<mapsto> ''0''])"
    using get_choices_ranks_contiguous [of ?f 7 1 2 "[''a'', ''b'', ''c'']" "[1 \<mapsto> ''2'', 3 \<mapsto> ''0'']" "''0''"]
    by simp
  with valid v show ?thesis
    using get_choices_ranks_contiguous [of ?f 7 1 2 "[''a'', ''b'', ''c'']" "[1 \<mapsto> ''2'', 3 \<mapsto> ''0'']" "''0''"]
    by simp
qed

subsection \<open>Duplicate choices on a ballot\<close>

text \<open>
  C4. A ballot whose non-empty choices name the same candidate twice is rejected:
  \<^verbatim>\<open>clean\<close> raises "Invalid ballot" whenever two choice fields hold the same non-empty
  value, and a submitted form that names a registered candidate in two fields is invalid
  with that error recorded, so the formset is invalid and no election data (hence no
  vote from that ballot) is produced.
\<close>

theorem duplicate_choice_invalid_ballot:
  "(i < j \<and> j < length (candidates f)
      \<and> cleaned_data_get f (i + 1) = cleaned_data_get f (j + 1)
      \<and> cleaned_data_get f (i + 1) \<noteq> []
    \<longrightarrow> STVBallotForm_clean f = Inl (ValidationError ''Invalid ballot''))
   \<and> (i < j \<and> j < length cands \<and> c < length cands
        \<and> d (i + 1) = Some (str c) \<and> d (j + 1) = Some (str c)
      \<longrightarrow> ValidationError ''Invalid ballot''
            \<in> set (errors (full_clean (STVBallotForm_init cands d)))
          \<and> \<not> is_valid (STVBallotForm_init cands d)
          \<and> (d \<in> set posted \<longrightarrow> stv_count_ballots cands posted = None))"
proof -
  have clean: "STVBallotForm_clean g = Inl (ValidationError ''Invalid ballot'')"
    if "i < j" "j < length (candidates g)"
      "cleaned_data_get g (i + 1) = cleaned_data_get g (j + 1)"
      "cleaned_data_get g (i + 1) \<noteq> []" for g
  proof -
    from that have "\<not> distinct (filter (\<lambda>v. v \<noteq> []) (cleaned_choices g))"
      using filter_not_distinct [of i j "cleaned_choices g" "\<lambda>v. v \<noteq> []"]
      by (simp add: nth_cleaned_choices)
    then show ?thesis
      unfolding STVBallotForm_clean_eq Let_def by simp
  qed
  have pipeline: "ValidationError ''Invalid ballot''
            \<in> set (errors (full_clean (STVBallotForm_init cands d)))
          \<and> \<not> is_valid (STVBallotForm_init cands d)
          \<and> (d \<in> set posted \<longrightarrow> stv_count_ballots cands posted = None)"
    if a: "i < j" "j < length cands" "c < length cands"
      "d (i + 1) = Some (str c)" "d (j + 1) = Some (str c)"
  proof -
    let ?f = "STVBallotForm_init cands d"
    let ?f1 = "clean_fields (?f\<lparr>cleaned_data := Map.empty, errors := []\<rparr>) (form_fields ?f)"
    have "cleaned_data_get ?f1 (i + 1) = str c" "cleaned_data_get ?f1 (j + 1) = str c"
      using a init_candidate_value [of "i + 1" cands c d] init_candidate_value [of "j + 1" cands c d]
      by simp_all
    with a have "STVBallotForm_clean ?f1 = Inl (ValidationError ''Invalid ballot'')"
      using clean [of ?f1] by (simp add: str_nonempty)
    then have e: "errors (full_clean ?f) = errors ?f1 @ [ValidationError ''Invalid ballot'']"
      unfolding full_clean_def Let_def by simp
    then have "\<not> is_valid ?f"
      by (simp add: is_valid_def)
    with e show ?thesis
      using stv_count_ballots_invalid [of d posted cands] by simp
  qed
  from clean [of f] pipeline show ?thesis
    by blast
qed

theorem duplicate_choice_invalid_ballot_witness:
  "STVBallotForm_clean
     ((STVBallotForm_init [''a'', ''b''] Map.empty)\<lparr>cleaned_data := [1 \<mapsto> ''1'', 2 \<mapsto> ''1'']\<rparr>)
       = Inl (ValidationError ''Invalid ballot'')
   \<and> [1 \<mapsto> ''1'', 2 \<mapsto> ''1''] (0 + 1 :: nat) = Some (str 1)
   \<and> [1 \<mapsto> ''1'', 2 \<mapsto> ''1''] (1 + 1 :: nat) = Some (str 1)
   \<and> ValidationError ''Invalid ballot''
        \<in> set (errors (full_clean (STVBallotForm_init [''a'', ''b''] [1 \<mapsto> ''1'', 2 \<mapsto> ''1''])))
   \<and> \<not> is_valid (STVBallotForm_init [''a'', ''b''] [1 \<mapsto> ''1'', 2 \<mapsto> ''1''])
   \<and> stv_count_ballots [''a'', ''b''] [[1 \<mapsto> ''0''], [1 \<mapsto> ''1'', 2 \<mapsto> ''1'']] = None"
proof -
  let ?d = "[1 \<mapsto> ''1'', 2 \<mapsto> ''1''] :: nat \<rightharpoonup> string"
  let ?f = "(STVBallotForm_init [''a'', ''b''] Map.empty)\<lparr>cleaned_data := ?d\<rparr>"
  have s: "str 1 = ''1''"
    by code_simp
  have hyp1: "(0::nat) < 1 \<and> 1 < length (candidates ?f)
      \<and> cleaned_data_get ?f (0 + 1) = cleaned_data_get ?f (1 + 1)
      \<and> cleaned_data_get ?f (0 + 1) \<noteq> []"
    by (simp add: cleaned_data_get_def)
  have hyp2: "(0::nat) < 1 \<and> 1 < length [''a'', ''b''] \<and> (1::nat) < length [''a'', ''b'']
      \<and> ?d (0 + 1) = Some (str 1) \<and> ?d (1 + 1) = Some (str 1)"
    using s by simp
  have mem: "?d \<in> set [[1 \<mapsto> ''0''], ?d]"
    by simp
  from hyp1 hyp2 mem show ?thesis
    using duplicate_choice_invalid_ballot
      [of 0 1 ?f "[''a'', ''b'']" 1 ?d "[[1 \<mapsto> ''0''], ?d]"]
    by blast
qed

subsection \<open>Candidate identifiers of a vote\<close>

text \<open>
  C5. Every \<^verbatim>\<open>candidateTmpId\<close> in a vote produced from a validated ballot form is
  \<^verbatim>\<open>str(i)\<close> for the index \<open>i\<close> of a candidate of the enumerated list: the choice fields
  offer only the empty choice and the indices \<open>0..n-1\<close>, so a form with any other
  non-empty value in a choice field is not valid, and no unknown candidate can reach
  the count.
\<close>

theorem candidateTmpId_registered:
  "(is_valid (STVBallotForm_init cands d)
      \<longrightarrow> (\<forall>v \<in> set (votes (get_choices (full_clean (STVBallotForm_init cands d)) serial)).
             \<exists>i < length cands. candidateTmpId v = str i))
   \<and> (1 \<le> k \<and> k \<le> length cands \<and> d k = Some s \<and> s \<noteq> []
        \<and> s \<notin> str ` {0..<length cands}
      \<longrightarrow> \<not> is_valid (STVBallotForm_init cands d))"
proof (intro conjI impI ballI)
  let ?f = "STVBallotForm_init cands d"
  fix v
  assume valid: "is_valid ?f"
    and v: "v \<in> set (votes (get_choices (full_clean ?f) serial))"
  from v have "candidateTmpId v \<in> set (takeWhile (\<lambda>v. v \<noteq> []) (cleaned_choices (full_clean ?f)))"
    using get_choices_ids [of "full_clean ?f" serial, symmetric] by simp
  then have ne: "candidateTmpId v \<noteq> []"
    and "candidateTmpId v \<in> set (cleaned_choices (full_clean ?f))"
    by (auto dest: set_takeWhileD)
  then obtain i where i: "i < length cands"
    and "candidateTmpId v = cleaned_choices (full_clean ?f) ! i"
    by (auto simp add: in_set_conv_nth)
  then have get: "cleaned_data_get (full_clean ?f) (i + 1) = candidateTmpId v"
    by (simp add: nth_cleaned_choices)
  with ne obtain w where w: "cleaned_data (full_clean ?f) (i + 1) = Some w" "w = candidateTmpId v"
    by (cases "cleaned_data (full_clean ?f) (i + 1)") (auto simp add: cleaned_data_get_def)
  from w(1) have "\<exists>choices. (i + 1, choices) \<in> set (form_fields ?f)
      \<and> ChoiceField_clean choices (d (i + 1)) = Inr w"
    using clean_fields_origin [of "?f\<lparr>cleaned_data := Map.empty, errors := []\<rparr>" "form_fields ?f" "i + 1" w]
      full_clean_valid(1) [OF valid]
    by simp
  then have "ChoiceField_clean (STVBallotForm_choices cands) (d (i + 1)) = Inr w"
    by (auto simp add: init_fields_mem)
  then have "w = [] \<or> w \<in> fst ` set (STVBallotForm_choices cands)"
    by (rule ChoiceField_clean_Inr [THEN conjunct2])
  with ne w(2) have "candidateTmpId v \<in> str ` {0..<length cands}"
    unfolding choices_values by blast
  then show "\<exists>i < length cands. candidateTmpId v = str i"
    by auto
next
  assume a: "1 \<le> k \<and> k \<le> length cands \<and> d k = Some s \<and> s \<noteq> []
               \<and> s \<notin> str ` {0..<length cands}"
  then have "ChoiceField_clean (STVBallotForm_choices cands) (d k)
               = Inl (ValidationError ''Select a valid choice.'')"
    by (simp add: ChoiceField_clean_def choices_values)
  with a show "\<not> is_valid (STVBallotForm_init cands d)"
    using init_field_fails [of k cands d] by blast
qed

theorem candidateTmpId_registered_witness:
  "is_valid (STVBallotForm_init [''a'', ''b''] [1 \<mapsto> ''1'', 2 \<mapsto> ''0''])
   \<and> list_all (\<lambda>v. \<exists>i < length [''a'', ''b'']. candidateTmpId v = str i)
        (votes (get_choices
          (full_clean (STVBallotForm_init [''a'', ''b''] [1 \<mapsto> ''1'', 2 \<mapsto> ''0''])) 1))
   \<and> ''2'' \<notin> str ` {0..<length [''a'', ''b'']}
   \<and> \<not> is_valid (STVBallotForm_init [''a'', ''b''] [1 \<mapsto> ''2''])"
proof -
  have valid: "is_valid (STVBallotForm_init [''a'', ''b''] [1 \<mapsto> ''1'', 2 \<mapsto> ''0''])"
    by code_simp
  have s: "str 0 = ''0''" "str 1 = ''1''"
    by code_simp+
  have set: "{0..<length [''a'', ''b'']} = {0, 1}"
    by auto
  have out: "''2'' \<notin> str ` {0..<length [''a'', ''b'']}"
    unfolding set using s by simp
  have hyp: "(1::nat) \<le> 1 \<and> 1 \<le> length [''a'', ''b''] \<and> [1 \<mapsto> ''2''] (1::nat) = Some ''2''
      \<and> ''2'' \<noteq> [] \<and> ''2'' \<notin> str ` {0..<length [''a'', ''b'']}"
    using out by simp
  from valid out hyp show ?thesis
    unfolding list_all_iff
    using candidateTmpId_registered
      [of "[''a'', ''b'']" "[1 \<mapsto> ''1'', 2 \<mapsto> ''0'']" 1 1 "''2''"]
      candidateTmpId_registered
      [of "[''a'', ''b'']" "[1 \<mapsto> ''2'']" 1 1 "''2''"]
    by blast
qed

subsection \<open>The number of seats\<close>



subsection \<open>The limit per constituency\<close>



subsection \<open>Serial numbers and order of the ballots\<close>

text \<open>
  C8. The ballots are handed to the counting engine in the order received, each with the
  serial number of its 1-based position in the posted formset (it is the vote of the form
  at that position); the serial numbers in the assembled election data are strictly
  increasing, hence pairwise distinct, and positive.
\<close>

theorem ballot_serials_positions:
  "stv_count_ballots cands posted = Some ballots \<longrightarrow>
     sorted_wrt (<) (map ballotSerialNumber ballots)
     \<and> distinct (map ballotSerialNumber ballots)
     \<and> (\<forall>b \<in> set ballots.
          0 < ballotSerialNumber b \<and> ballotSerialNumber b \<le> length posted
          \<and> b = get_choices
                (full_clean (STVBallotForm_init cands (posted ! (ballotSerialNumber b - 1))))
                (ballotSerialNumber b))"
proof (intro impI)
  assume "stv_count_ballots cands posted = Some ballots"
  then have eq: "ballots = filter (\<lambda>b. votes b \<noteq> [])
            (map (\<lambda>(i, d). get_choices (full_clean (STVBallotForm_init cands d)) (i + 1))
               (enumerate 0 posted))"
    by (rule stv_count_ballots_Some(1))
  have sorted: "sorted_wrt (<) (map ballotSerialNumber ballots)"
    unfolding eq by (rule filtered_serials_sorted)
  then have "distinct (map ballotSerialNumber ballots)"
    by (simp add: strict_sorted_iff)
  moreover have "\<forall>b \<in> set ballots.
          0 < ballotSerialNumber b \<and> ballotSerialNumber b \<le> length posted
          \<and> b = get_choices
                (full_clean (STVBallotForm_init cands (posted ! (ballotSerialNumber b - 1))))
                (ballotSerialNumber b)"
    unfolding eq
    using filtered_members [of _ "\<lambda>b. votes b \<noteq> []" "\<lambda>d. full_clean (STVBallotForm_init cands d)" posted]
    by blast
  ultimately show "sorted_wrt (<) (map ballotSerialNumber ballots)
     \<and> distinct (map ballotSerialNumber ballots)
     \<and> (\<forall>b \<in> set ballots.
          0 < ballotSerialNumber b \<and> ballotSerialNumber b \<le> length posted
          \<and> b = get_choices
                (full_clean (STVBallotForm_init cands (posted ! (ballotSerialNumber b - 1))))
                (ballotSerialNumber b))"
    using sorted by blast
qed

theorem ballot_serials_positions_witness:
  "stv_count_ballots [''A B C:S'', ''D E F:T''] [[1 \<mapsto> ''0''], Map.empty, [1 \<mapsto> ''1'', 2 \<mapsto> ''0'']]
     = Some [\<lparr>votes = [\<lparr>rank = 1, candidateTmpId = ''0''\<rparr>], ballotSerialNumber = 1\<rparr>,
             \<lparr>votes = [\<lparr>rank = 1, candidateTmpId = ''1''\<rparr>, \<lparr>rank = 2, candidateTmpId = ''0''\<rparr>],
              ballotSerialNumber = 3\<rparr>]
   \<and> distinct (map ballotSerialNumber
        [\<lparr>votes = [\<lparr>rank = 1, candidateTmpId = ''0''\<rparr>], ballotSerialNumber = 1\<rparr>,
         \<lparr>votes = [\<lparr>rank = 1, candidateTmpId = ''1''\<rparr>, \<lparr>rank = 2, candidateTmpId = ''0''\<rparr>],
          ballotSerialNumber = 3\<rparr>])"
proof -
  have c: "stv_count_ballots [''A B C:S'', ''D E F:T''] [[1 \<mapsto> ''0''], Map.empty, [1 \<mapsto> ''1'', 2 \<mapsto> ''0'']]
     = Some [\<lparr>votes = [\<lparr>rank = 1, candidateTmpId = ''0''\<rparr>], ballotSerialNumber = 1\<rparr>,
             \<lparr>votes = [\<lparr>rank = 1, candidateTmpId = ''1''\<rparr>, \<lparr>rank = 2, candidateTmpId = ''0''\<rparr>],
              ballotSerialNumber = 3\<rparr>]"
    by code_simp
  from c show ?thesis
    using ballot_serials_positions
      [of "[''A B C:S'', ''D E F:T'']" "[[1 \<mapsto> ''0''], Map.empty, [1 \<mapsto> ''1'', 2 \<mapsto> ''0'']]"
          "[\<lparr>votes = [\<lparr>rank = 1, candidateTmpId = ''0''\<rparr>], ballotSerialNumber = 1\<rparr>,
            \<lparr>votes = [\<lparr>rank = 1, candidateTmpId = ''1''\<rparr>, \<lparr>rank = 2, candidateTmpId = ''0''\<rparr>],
             ballotSerialNumber = 3\<rparr>]"]
    by blast
qed

subsection \<open>Duplicate candidates\<close>

text \<open>
  C9, as stated, fails for \<^verbatim>\<open>STVElectionForm\<close>: \<^verbatim>\<open>clean_candidates\<close> only checks that
  every line has four comma-separated parts, so a candidate list that holds the same line
  twice is accepted.
\<close>

theorem duplicate_candidate_lines_accepted_counterexample:
  "clean_candidates ''Ann, Lee, Bob, Law\<newline>Ann, Lee, Bob, Law''
     = Inr [''Ann, Lee, Bob, Law'', ''Ann, Lee, Bob, Law'']"
  by code_simp

text \<open>
  C9, amended. The candidate-list validation of \<^verbatim>\<open>STVElectionForm\<close> makes no duplicate
  check: \<^verbatim>\<open>clean_candidates\<close> returns the stripped lines of the submitted text exactly
  when each of them has four comma-separated parts, and raises a validation error
  otherwise; whether a line occurs twice plays no part.
\<close>

theorem clean_candidates_four_parts_only:
  "(clean_candidates text = Inr cs
      \<longleftrightarrow> cs = map strip (split CHR 0x0A (strip text))
          \<and> (\<forall>c \<in> set cs. length (split CHR '','' c) = 4))
   \<and> ((\<exists>c \<in> set (map strip (split CHR 0x0A (strip text))). length (split CHR '','' c) \<noteq> 4)
        \<longrightarrow> (\<exists>msg. clean_candidates text = Inl (ValidationError msg)))"
proof (intro conjI impI)
  show "clean_candidates text = Inr cs
      \<longleftrightarrow> cs = map strip (split CHR 0x0A (strip text))
          \<and> (\<forall>c \<in> set cs. length (split CHR '','' c) = 4)"
    unfolding clean_candidates_def Let_def
    using check_candidates_None [of "map strip (split CHR 0x0A (strip text))"]
    by (cases "check_candidates (map strip (split CHR 0x0A (strip text)))") auto
next
  let ?lines = "map strip (split CHR 0x0A (strip text))"
  have msg: "\<exists>msg. e = ValidationError msg" if "check_candidates ls = Some e" for ls e
    using that by (induction ls) (auto split: if_splits)
  assume "\<exists>c \<in> set ?lines. length (split CHR '','' c) \<noteq> 4"
  then have "check_candidates ?lines \<noteq> None"
    using check_candidates_None [of ?lines] by blast
  then obtain e where e: "check_candidates ?lines = Some e"
    by auto
  with msg [OF e] show "\<exists>msg. clean_candidates text = Inl (ValidationError msg)"
    unfolding clean_candidates_def Let_def by auto
qed

theorem clean_candidates_four_parts_only_witness:
  "clean_candidates ''Ann, Lee, Bob, Law\<newline>Eve, Roe, Tom, Law\<newline>Ann, Lee, Bob, Law''
     = Inr [''Ann, Lee, Bob, Law'', ''Eve, Roe, Tom, Law'', ''Ann, Lee, Bob, Law'']
   \<and> (\<exists>msg. clean_candidates ''Ann, Lee, Bob'' = Inl (ValidationError msg))"
proof -
  define posted where "posted = ''Ann, Lee, Bob, Law\<newline>Eve, Roe, Tom, Law\<newline>Ann, Lee, Bob, Law''"
  define cs where "cs = [''Ann, Lee, Bob, Law'', ''Eve, Roe, Tom, Law'', ''Ann, Lee, Bob, Law'']"
  define short where "short = ''Ann, Lee, Bob''"
  have lines: "cs = map strip (split CHR 0x0A (strip posted))"
    unfolding cs_def posted_def by code_simp
  have four: "\<forall>c \<in> set cs. length (split CHR '','' c) = 4"
    unfolding cs_def by code_simp
  have bad: "\<exists>c \<in> set (map strip (split CHR 0x0A (strip short))). length (split CHR '','' c) \<noteq> 4"
    unfolding short_def by code_simp
  from lines four have "clean_candidates posted = Inr cs"
    using clean_candidates_four_parts_only [of posted cs] by blast
  moreover from bad have "\<exists>msg. clean_candidates short = Inl (ValidationError msg)"
    using clean_candidates_four_parts_only [of short cs] by blast
  ultimately show ?thesis
    unfolding posted_def cs_def short_def by blast
qed

subsection \<open>The quota policy flag\<close>

text \<open>
  C10. \<^verbatim>\<open>StvForm.clean\<close> is written to force the flag (\<^verbatim>\<open>cleaned_data["droop_quota"] = True\<close>,
  and \<^verbatim>\<open>False\<close> in \<^verbatim>\<open>UniCouncilsGrForm\<close>), but it never gets there: the number of
  answers is computed with \<^verbatim>\<open>/\<close>, which gives a \<^verbatim>\<open>float\<close>, and \<^verbatim>\<open>range\<close> refuses it. For
  a submission without answer keys (the two default answer fields left empty) and the
  flag checked, \<^verbatim>\<open>clean\<close> raises \<^verbatim>\<open>TypeError\<close> in both forms and produces no cleaned
  \<^verbatim>\<open>droop_quota\<close>.
\<close>

theorem StvForm_clean_raises_TypeError:
  "StvForm_clean
     \<lparr>prefix = ''form-0'',
      data_keys = [''form-0-eligibles'', ''form-0-droop_quota''],
      eligibles = Some 1, has_department_limit = Some False, department_limit = Some 0,
      droop_quota = Some True,
      answer = [0 \<mapsto> [None, None], 1 \<mapsto> [None, None]],
      field_errors = Map.empty\<rparr> = Inl TypeError
   \<and> UniCouncilsGrForm_clean
     \<lparr>prefix = ''form-0'',
      data_keys = [''form-0-eligibles'', ''form-0-droop_quota''],
      eligibles = Some 1, has_department_limit = Some False, department_limit = Some 0,
      droop_quota = None,
      answer = [0 \<mapsto> [None, None], 1 \<mapsto> [None, None]],
      field_errors = Map.empty\<rparr> = Inl TypeError"
  by (simp add: StvForm_clean_def UniCouncilsGrForm_clean_def truediv_def py_range_def
      answer_widget_values_len_def startswith_def)

end
